theory Spec2Isabelle
  imports Complex_Main "HOL-Library.Word"
begin

section \<open>Scalars and the vector types of the math library\<close>

text \<open>
  The source computes with C++ \<^verbatim>\<open>float\<close>. The scalar type is left open here
  (a type variable), and the operations the code applies to scalars are collected in
  one parameter: the literals \<^verbatim>\<open>0.0f\<close> and \<^verbatim>\<open>1.0f\<close>, addition, subtraction,
  multiplication and the inverse square root that vector normalisation uses.
  A statement proved for every such parameter holds whatever the hardware's
  arithmetic does. A statement about lengths is proved for every arithmetic on the
  reals that rounds (\<open>rounding\<close> below). The examples compute with \<open>exact\<close>,
  the arithmetic of the real numbers, on values where every step of the float
  computation is exact as well.
\<close>

record 'a arith =
  f_zero :: 'a
  f_one :: 'a
  f_add :: "'a \<Rightarrow> 'a \<Rightarrow> 'a"
  f_sub :: "'a \<Rightarrow> 'a \<Rightarrow> 'a"
  f_mul :: "'a \<Rightarrow> 'a \<Rightarrow> 'a"
  f_inversesqrt :: "'a \<Rightarrow> 'a"

text \<open>
  The reals have no infinity and no NaN: where the code's \<^verbatim>\<open>inversesqrt\<close> leaves the
  finite numbers (an argument that is not positive), \<open>exact\<close> says nothing of its
  value, and no statement below evaluates it there.
\<close>

definition exact :: "real arith" where
  "exact = \<lparr> f_zero = 0, f_one = 1, f_add = (\<lambda>x y. x + y), f_sub = (\<lambda>x y. x - y),
             f_mul = (\<lambda>x y. x * y),
             f_inversesqrt = (\<lambda>x. if 0 < x then 1 / sqrt x else undefined) \<rparr>"

text \<open>
  An arithmetic on the reals that rounds: the literals are exact, and the result of
  an operation differs from the exact result by at most the fraction \<open>eps\<close> of it
  (the inverse square root on positive arguments). Binary floating point satisfies
  this with its unit roundoff as \<open>eps\<close> as long as nothing overflows or underflows.
\<close>

definition rounding :: "real \<Rightarrow> real arith \<Rightarrow> bool" where
  "rounding eps ar =
     (0 \<le> eps \<and> f_zero ar = 0 \<and> f_one ar = 1
      \<and> (\<forall>x y. \<bar>f_add ar x y - (x + y)\<bar> \<le> eps * \<bar>x + y\<bar>)
      \<and> (\<forall>x y. \<bar>f_sub ar x y - (x - y)\<bar> \<le> eps * \<bar>x - y\<bar>)
      \<and> (\<forall>x y. \<bar>f_mul ar x y - x * y\<bar> \<le> eps * \<bar>x * y\<bar>)
      \<and> (\<forall>x. 0 < x \<longrightarrow> \<bar>f_inversesqrt ar x - 1 / sqrt x\<bar> \<le> eps * (1 / sqrt x)))"


datatype 'a vec3 = Vec3 'a 'a 'a

datatype 'a vec4 = Vec4 'a 'a 'a 'a

text \<open>A \<^verbatim>\<open>mat4\<close> is column-major: four columns, each a \<^verbatim>\<open>vec4\<close>.\<close>

datatype 'a mat4 = Mat4 "'a vec4" "'a vec4" "'a vec4" "'a vec4"

text \<open>
  Modelled from the spec: \<^verbatim>\<open>Karma::ToGlm(v, w)\<close> is declared outside the translated
  file. It extends a three-component vector by a fourth component: the depth for the
  attenuation, \<open>w = 0\<close> for a direction, \<open>w = 1\<close> for a position.
\<close>

fun ToGlm :: "'a vec3 \<Rightarrow> 'a \<Rightarrow> 'a vec4" where
  "ToGlm (Vec3 x y z) w = Vec4 x y z w"

text \<open>
  The operations of the GLM library that the loops call, as that library defines them.
  \<^verbatim>\<open>glm::vec3(v)\<close> of a \<^verbatim>\<open>vec4\<close> keeps the first three components.
\<close>

fun glm_vec3 :: "'a vec4 \<Rightarrow> 'a vec3" where
  "glm_vec3 (Vec4 x y z w) = Vec3 x y z"

fun glm_dot :: "'a arith \<Rightarrow> 'a vec4 \<Rightarrow> 'a vec4 \<Rightarrow> 'a" where
  "glm_dot ar (Vec4 a b c d) (Vec4 x y z w) =
     f_add ar (f_add ar (f_add ar (f_mul ar a x) (f_mul ar b y)) (f_mul ar c z)) (f_mul ar d w)"

fun glm_scale :: "'a arith \<Rightarrow> 'a vec4 \<Rightarrow> 'a \<Rightarrow> 'a vec4" where
  "glm_scale ar (Vec4 x y z w) k = Vec4 (f_mul ar x k) (f_mul ar y k) (f_mul ar z k) (f_mul ar w k)"

text \<open>\<^verbatim>\<open>glm::normalize(v)\<close> is \<^verbatim>\<open>v * inversesqrt(dot(v, v))\<close>.\<close>

definition glm_normalize :: "'a arith \<Rightarrow> 'a vec4 \<Rightarrow> 'a vec4" where
  "glm_normalize ar v = glm_scale ar v (f_inversesqrt ar (glm_dot ar v v))"

text \<open>
  Matrix times vector: the linear combination of the matrix's columns with the
  vector's components as coefficients.
\<close>

fun mat_vec :: "'a arith \<Rightarrow> 'a mat4 \<Rightarrow> 'a vec4 \<Rightarrow> 'a vec4" where
  "mat_vec ar (Mat4 (Vec4 a0 a1 a2 a3) (Vec4 b0 b1 b2 b3) (Vec4 c0 c1 c2 c3) (Vec4 d0 d1 d2 d3))
            (Vec4 x y z w) =
     Vec4 (f_add ar (f_add ar (f_add ar (f_mul ar a0 x) (f_mul ar b0 y)) (f_mul ar c0 z)) (f_mul ar d0 w))
          (f_add ar (f_add ar (f_add ar (f_mul ar a1 x) (f_mul ar b1 y)) (f_mul ar c1 z)) (f_mul ar d1 w))
          (f_add ar (f_add ar (f_add ar (f_mul ar a2 x) (f_mul ar b2 y)) (f_mul ar c2 z)) (f_mul ar d2 w))
          (f_add ar (f_add ar (f_add ar (f_mul ar a3 x) (f_mul ar b3 y)) (f_mul ar c3 z)) (f_mul ar d3 w))"

text \<open>Matrix times matrix: the left matrix applied to each column of the right one.\<close>

fun mat_mat :: "'a arith \<Rightarrow> 'a mat4 \<Rightarrow> 'a mat4 \<Rightarrow> 'a mat4" where
  "mat_mat ar m (Mat4 c0 c1 c2 c3) =
     Mat4 (mat_vec ar m c0) (mat_vec ar m c1) (mat_vec ar m c2) (mat_vec ar m c3)"

definition identity4 :: "'a arith \<Rightarrow> 'a mat4" where
  "identity4 ar =
     Mat4 (Vec4 (f_one ar) (f_zero ar) (f_zero ar) (f_zero ar))
          (Vec4 (f_zero ar) (f_one ar) (f_zero ar) (f_zero ar))
          (Vec4 (f_zero ar) (f_zero ar) (f_one ar) (f_zero ar))
          (Vec4 (f_zero ar) (f_zero ar) (f_zero ar) (f_one ar))"


fun floats_of_vec3 :: "'a vec3 \<Rightarrow> 'a list" where
  "floats_of_vec3 (Vec3 x y z) = [x, y, z]"

fun floats_of_vec4 :: "'a vec4 \<Rightarrow> 'a list" where
  "floats_of_vec4 (Vec4 x y z w) = [x, y, z, w]"

fun floats_of_mat4 :: "'a mat4 \<Rightarrow> 'a list" where
  "floats_of_mat4 (Mat4 c0 c1 c2 c3) =
     floats_of_vec4 c0 @ floats_of_vec4 c1 @ floats_of_vec4 c2 @ floats_of_vec4 c3"


section \<open>Lights, the view state and the GPU record\<close>

text \<open>
  Modelled from the spec: the light class is declared outside the translated file.
  Its read-only view has the inner and outer cone angle, the attenuation
  coefficients and the depth, the diffuse and specular colour, the direction, the
  translation and the derived local-to-world matrix. The one-argument
  \<^verbatim>\<open>Karma::ToGlm\<close> converts a colour to the vector type component by component
  (diffuse to a \<^verbatim>\<open>vec4\<close>, specular to a \<^verbatim>\<open>vec3\<close>), so the colours are kept
  as vectors here.
\<close>

record 'a light =
  innerAngle :: 'a
  outerAngle :: 'a
  attenuation :: "'a vec3"
  depth :: 'a
  diffuse :: "'a vec4"
  specular :: "'a vec3"
  direction :: "'a vec3"
  translation :: "'a vec3"
  toMatrix :: "'a mat4"

text \<open>
  Modelled from the spec: \<^verbatim>\<open>OpenGLRenderBlock\<close> is declared outside the translated
  file. It supplies the two transform matrices of the current frame, world-to-view
  and world-to-perspective.
\<close>

record 'a renderblock =
  worldToView :: "'a mat4"
  worldToPersp :: "'a mat4"

text \<open>
  \<^verbatim>\<open>DataType\<close>, the record of one light in the destination: the nine members the
  loops assign, under the source's names, with the types of the spec's data model.
\<close>

record 'a DataType =
  m_innerAngle :: 'a
  m_outerAngle :: 'a
  m_diffAngle :: 'a
  m_attenuation :: "'a vec4"
  m_diffuse :: "'a vec4"
  m_direction :: "'a vec3"
  m_perspTrans :: "'a mat4"
  m_specular :: "'a vec3"
  m_viewTrans :: "'a vec3"

text \<open>
  The declaration of \<^verbatim>\<open>DataType\<close> (field order, padding, size) is in a header
  outside the translated file, so the layout is a parameter: the byte offset of each
  field and \<^verbatim>\<open>sizeof(DataType)\<close>. \<^verbatim>\<open>TranslationOffset\<close> is the offset of
  \<^verbatim>\<open>m_viewTrans\<close> and \<^verbatim>\<open>PerpectiveOffset\<close> (the source's spelling) the offset of
  \<^verbatim>\<open>m_perspTrans\<close>.
\<close>

record layout =
  InnerAngleOffset :: nat
  OuterAngleOffset :: nat
  DiffAngleOffset :: nat
  AttenuationOffset :: nat
  DiffuseOffset :: nat
  DirectionOffset :: nat
  PerpectiveOffset :: nat
  SpecularOffset :: nat
  TranslationOffset :: nat
  sizeof_DataType :: nat


section \<open>The destination memory\<close>

text \<open>
  The destination is byte-addressed. A cell holds either a byte that the translation
  did not write, or the \<open>k\<close>-th byte of a stored scalar; a scalar is four bytes
  (\<^verbatim>\<open>sizeof(float)\<close>). A scalar is read back only from four cells that hold bytes
  \<open>0..3\<close> of one stored scalar, so a record that a later write has partly overwritten
  does not read back.
\<close>

datatype 'a memval = Raw "8 word" | Frag 'a nat

type_synonym 'a memory = "nat \<Rightarrow> 'a memval"

definition store_float :: "'a memory \<Rightarrow> nat \<Rightarrow> 'a \<Rightarrow> 'a memory" where
  "store_float mem a v = (\<lambda>p. if a \<le> p \<and> p < a + 4 then Frag v (p - a) else mem p)"

definition load_float :: "'a memory \<Rightarrow> nat \<Rightarrow> 'a option" where
  "load_float mem a =
     (case mem a of
        Raw _ \<Rightarrow> None
      | Frag v k \<Rightarrow>
          if k = 0 \<and> mem (a + 1) = Frag v 1 \<and> mem (a + 2) = Frag v 2 \<and> mem (a + 3) = Frag v 3
          then Some v else None)"

fun store_floats :: "'a memory \<Rightarrow> nat \<Rightarrow> 'a list \<Rightarrow> 'a memory" where
  "store_floats mem a [] = mem"
| "store_floats mem a (v # vs) = store_floats (store_float mem a v) (a + 4) vs"

fun load_floats :: "'a memory \<Rightarrow> nat \<Rightarrow> nat \<Rightarrow> 'a list option" where
  "load_floats mem a 0 = Some []"
| "load_floats mem a (Suc n) =
     (case load_float mem a of
        None \<Rightarrow> None
      | Some v \<Rightarrow> (case load_floats mem (a + 4) n of None \<Rightarrow> None | Some vs \<Rightarrow> Some (v # vs)))"

definition store_vec3 :: "'a memory \<Rightarrow> nat \<Rightarrow> 'a vec3 \<Rightarrow> 'a memory" where
  "store_vec3 mem a v = store_floats mem a (floats_of_vec3 v)"

definition store_vec4 :: "'a memory \<Rightarrow> nat \<Rightarrow> 'a vec4 \<Rightarrow> 'a memory" where
  "store_vec4 mem a v = store_floats mem a (floats_of_vec4 v)"

definition store_mat4 :: "'a memory \<Rightarrow> nat \<Rightarrow> 'a mat4 \<Rightarrow> 'a memory" where
  "store_mat4 mem a m = store_floats mem a (floats_of_mat4 m)"


section \<open>The translation loops\<close>

text \<open>
  Everything a call can reach: the light container the iterators range over, the
  render block behind the \<^verbatim>\<open>stats\<close> reference, and the destination memory.
  An iterator is an index into the container, a destination pointer a byte address.
\<close>

record 'a world =
  w_lights :: "'a light list"
  w_stats :: "'a renderblock"
  w_mem :: "'a memory"

text \<open>The body of the loop of \<^verbatim>\<open>translateBuffer\<close>: the nine assignments, in the source's order.\<close>

definition translateBuffer_body ::
  "'a arith \<Rightarrow> layout \<Rightarrow> 'a renderblock \<Rightarrow> 'a memory \<Rightarrow> nat \<Rightarrow> 'a light \<Rightarrow> 'a memory" where
  "translateBuffer_body ar lay stats mem lightDest lightSource =
     (let mem = store_float mem (lightDest + InnerAngleOffset lay) (innerAngle lightSource);
          mem = store_float mem (lightDest + OuterAngleOffset lay) (outerAngle lightSource);
          mem = store_float mem (lightDest + DiffAngleOffset lay)
                  (f_sub ar (outerAngle lightSource) (innerAngle lightSource));
          mem = store_vec4 mem (lightDest + AttenuationOffset lay)
                  (ToGlm (attenuation lightSource) (depth lightSource));
          mem = store_vec4 mem (lightDest + DiffuseOffset lay) (diffuse lightSource);
          mem = store_vec3 mem (lightDest + DirectionOffset lay)
                  (glm_vec3 (glm_normalize ar
                     (mat_vec ar (worldToView stats) (ToGlm (direction lightSource) (f_zero ar)))));
          mem = store_mat4 mem (lightDest + PerpectiveOffset lay)
                  (mat_mat ar (worldToPersp stats) (toMatrix lightSource));
          mem = store_vec3 mem (lightDest + SpecularOffset lay) (specular lightSource);
          mem = store_vec3 mem (lightDest + TranslationOffset lay)
                  (glm_vec3 (mat_vec ar (worldToView stats) (ToGlm (translation lightSource) (f_one ar))))
      in mem)"

text \<open>
  \<^verbatim>\<open>translateBuffer(stats, data, begin, end)\<close>. The loop runs while
  \<^verbatim>\<open>begin != end\<close>; \<^verbatim>\<open>++data\<close> moves the typed pointer by one record.
  The result is the world after the loop and the final value of \<^verbatim>\<open>data\<close>;
  \<open>None\<close> stands for no defined result: the loop never leaves, or it dereferences an
  iterator past the container.
\<close>

partial_function (option) translateBuffer ::
  "'a arith \<Rightarrow> layout \<Rightarrow> 'a world \<Rightarrow> nat \<Rightarrow> nat \<Rightarrow> nat \<Rightarrow> ('a world \<times> nat) option" where
  "translateBuffer ar lay w data begin_it end_it =
     (if begin_it \<noteq> end_it then
        (if begin_it < length (w_lights w) then
           translateBuffer ar lay
             (w\<lparr>w_mem := translateBuffer_body ar lay (w_stats w) (w_mem w) data (w_lights w ! begin_it)\<rparr>)
             (data + sizeof_DataType lay) (begin_it + 1) end_it
         else None)
      else Some (w, data))"

text \<open>The body of the loop of \<^verbatim>\<open>translateUniforms\<close>, from its own source lines.\<close>

definition translateUniforms_body ::
  "'a arith \<Rightarrow> layout \<Rightarrow> 'a renderblock \<Rightarrow> 'a memory \<Rightarrow> nat \<Rightarrow> 'a light \<Rightarrow> 'a memory" where
  "translateUniforms_body ar lay stats mem lightDest lightSource =
     (let mem = store_float mem (lightDest + InnerAngleOffset lay) (innerAngle lightSource);
          mem = store_float mem (lightDest + OuterAngleOffset lay) (outerAngle lightSource);
          mem = store_float mem (lightDest + DiffAngleOffset lay)
                  (f_sub ar (outerAngle lightSource) (innerAngle lightSource));
          mem = store_vec4 mem (lightDest + AttenuationOffset lay)
                  (ToGlm (attenuation lightSource) (depth lightSource));
          mem = store_vec4 mem (lightDest + DiffuseOffset lay) (diffuse lightSource);
          mem = store_vec3 mem (lightDest + DirectionOffset lay)
                  (glm_vec3 (glm_normalize ar
                     (mat_vec ar (worldToView stats) (ToGlm (direction lightSource) (f_zero ar)))));
          mem = store_mat4 mem (lightDest + PerpectiveOffset lay)
                  (mat_mat ar (worldToPersp stats) (toMatrix lightSource));
          mem = store_vec3 mem (lightDest + SpecularOffset lay) (specular lightSource);
          mem = store_vec3 mem (lightDest + TranslationOffset lay)
                  (glm_vec3 (mat_vec ar (worldToView stats) (ToGlm (translation lightSource) (f_one ar))))
      in mem)"

text \<open>
  \<^verbatim>\<open>translateUniforms(stats, data, step, begin, end)\<close>: \<^verbatim>\<open>data\<close> is a byte
  pointer and moves by \<^verbatim>\<open>step\<close> bytes per light.
\<close>

partial_function (option) translateUniforms ::
  "'a arith \<Rightarrow> layout \<Rightarrow> 'a world \<Rightarrow> nat \<Rightarrow> nat \<Rightarrow> nat \<Rightarrow> nat \<Rightarrow> ('a world \<times> nat) option" where
  "translateUniforms ar lay w data step begin_it end_it =
     (if begin_it \<noteq> end_it then
        (if begin_it < length (w_lights w) then
           translateUniforms ar lay
             (w\<lparr>w_mem := translateUniforms_body ar lay (w_stats w) (w_mem w) data (w_lights w ! begin_it)\<rparr>)
             (data + step) step (begin_it + 1) end_it
         else None)
      else Some (w, data))"


section \<open>The mesh configuration\<close>

text \<open>
  Modelled from the spec: \<^verbatim>\<open>OpenGLMesh\<close> is declared outside the translated file.
  A mesh keeps the vertex attributes declared on it. The call with seven arguments
  declares one attribute (slot, component count, element type, normalisation, stride,
  offset, divisor). The call with a count declares a matrix: \<open>count\<close> consecutive
  slots, one per column, the columns one after the other in the record.
\<close>

datatype OpenGLElementType = Float | OtherElementType

record attrib =
  a_location :: nat
  a_elements :: nat
  a_type :: OpenGLElementType
  a_normalized :: bool
  a_stride :: nat
  a_offset :: nat
  a_divisor :: nat

type_synonym mesh = "attrib list"

datatype mesh_call =
  VertexAttribPointerDivisor nat nat OpenGLElementType bool nat nat nat
| VertexAttribPointerDivisorN nat nat nat OpenGLElementType bool nat nat nat

text \<open>
  Modelled from the spec: \<^verbatim>\<open>OpenGLMesh::vertexAttribPointerDivisor\<close>, in its two
  forms, is missing from the translated file. A declaration is appended to the mesh;
  the matrix form appends one declaration per column, in consecutive slots.
\<close>

fun vertexAttribPointerDivisor :: "mesh \<Rightarrow> mesh_call \<Rightarrow> mesh" where
  "vertexAttribPointerDivisor m (VertexAttribPointerDivisor loc n ty nrm stride off dv) =
     m @ [\<lparr> a_location = loc, a_elements = n, a_type = ty, a_normalized = nrm,
            a_stride = stride, a_offset = off, a_divisor = dv \<rparr>]"
| "vertexAttribPointerDivisor m (VertexAttribPointerDivisorN loc n count ty nrm stride off dv) =
     m @ map (\<lambda>i. \<lparr> a_location = loc + i, a_elements = n, a_type = ty, a_normalized = nrm,
                     a_stride = stride, a_offset = off + i * (n * 4), a_divisor = dv \<rparr>) [0..<count]"

text \<open>The six calls of \<^verbatim>\<open>initializeMesh\<close>, in the source's order.\<close>

definition initializeMesh_calls :: "layout \<Rightarrow> mesh_call list" where
  "initializeMesh_calls lay =
     [VertexAttribPointerDivisor 1 4 Float False (sizeof_DataType lay) (TranslationOffset lay) 1,
      VertexAttribPointerDivisor 2 4 Float False (sizeof_DataType lay) (DirectionOffset lay) 1,
      VertexAttribPointerDivisor 4 4 Float False (sizeof_DataType lay) (AttenuationOffset lay) 1,
      VertexAttribPointerDivisor 5 4 Float False (sizeof_DataType lay) (DiffuseOffset lay) 1,
      VertexAttribPointerDivisor 6 3 Float False (sizeof_DataType lay) (SpecularOffset lay) 1,
      VertexAttribPointerDivisorN 7 4 4 Float False (sizeof_DataType lay) (PerpectiveOffset lay) 1]"

definition initializeMesh :: "layout \<Rightarrow> mesh \<Rightarrow> mesh" where
  "initializeMesh lay m = foldl vertexAttribPointerDivisor m (initializeMesh_calls lay)"

fun call_location :: "mesh_call \<Rightarrow> nat" where
  "call_location (VertexAttribPointerDivisor loc n ty nrm stride off dv) = loc"
| "call_location (VertexAttribPointerDivisorN loc n count ty nrm stride off dv) = loc"


section \<open>What the specification says of a call\<close>

text \<open>
  The record the specification describes for one light: the angle delta, the
  attenuation packed with the depth, the colours, the direction taken to view space
  and normalised, the position taken to view space, and the local-to-world matrix
  combined with the world-to-perspective matrix.
\<close>

definition spec_record :: "'a arith \<Rightarrow> 'a renderblock \<Rightarrow> 'a light \<Rightarrow> 'a DataType" where
  "spec_record ar stats l =
     \<lparr> m_innerAngle = innerAngle l,
       m_outerAngle = outerAngle l,
       m_diffAngle = f_sub ar (outerAngle l) (innerAngle l),
       m_attenuation = ToGlm (attenuation l) (depth l),
       m_diffuse = diffuse l,
       m_direction = glm_vec3 (glm_normalize ar
                       (mat_vec ar (worldToView stats) (ToGlm (direction l) (f_zero ar)))),
       m_perspTrans = mat_mat ar (worldToPersp stats) (toMatrix l),
       m_specular = specular l,
       m_viewTrans = glm_vec3 (mat_vec ar (worldToView stats) (ToGlm (translation l) (f_one ar))) \<rparr>"

text \<open>The fields of a record as (offset, scalars) pairs, in the order the loop assigns them.\<close>

definition DataType_fields :: "layout \<Rightarrow> 'a DataType \<Rightarrow> (nat \<times> 'a list) list" where
  "DataType_fields lay d =
     [(InnerAngleOffset lay, [m_innerAngle d]),
      (OuterAngleOffset lay, [m_outerAngle d]),
      (DiffAngleOffset lay, [m_diffAngle d]),
      (AttenuationOffset lay, floats_of_vec4 (m_attenuation d)),
      (DiffuseOffset lay, floats_of_vec4 (m_diffuse d)),
      (DirectionOffset lay, floats_of_vec3 (m_direction d)),
      (PerpectiveOffset lay, floats_of_mat4 (m_perspTrans d)),
      (SpecularOffset lay, floats_of_vec3 (m_specular d)),
      (TranslationOffset lay, floats_of_vec3 (m_viewTrans d))]"

fun store_fields :: "'a memory \<Rightarrow> nat \<Rightarrow> (nat \<times> 'a list) list \<Rightarrow> 'a memory" where
  "store_fields mem dest [] = mem"
| "store_fields mem dest ((off, vs) # fs) = store_fields (store_floats mem (dest + off) vs) dest fs"

text \<open>Writing one complete record at \<open>dest\<close>.\<close>

definition store_record :: "layout \<Rightarrow> 'a memory \<Rightarrow> nat \<Rightarrow> 'a DataType \<Rightarrow> 'a memory" where
  "store_record lay mem dest d = store_fields mem dest (DataType_fields lay d)"

definition holds_fields :: "'a memory \<Rightarrow> nat \<Rightarrow> (nat \<times> 'a list) list \<Rightarrow> bool" where
  "holds_fields mem dest fs =
     list_all (\<lambda>(off, vs). load_floats mem (dest + off) (length vs) = Some vs) fs"

text \<open>The memory holds the complete record \<open>d\<close> at \<open>dest\<close>: each of the nine fields reads back.\<close>

definition holds_record :: "layout \<Rightarrow> 'a memory \<Rightarrow> nat \<Rightarrow> 'a DataType \<Rightarrow> bool" where
  "holds_record lay mem dest d = holds_fields mem dest (DataType_fields lay d)"

text \<open>
  A layout is well formed when every field lies inside the record and no two fields
  share a byte, as the fields of a C++ class do. The sizes are those of the field
  types: 4 bytes a scalar, 12 a \<^verbatim>\<open>vec3\<close>, 16 a \<^verbatim>\<open>vec4\<close>, 64 a \<^verbatim>\<open>mat4\<close>.
\<close>

definition field_ranges :: "layout \<Rightarrow> (nat \<times> nat) list" where
  "field_ranges lay =
     [(InnerAngleOffset lay, 4), (OuterAngleOffset lay, 4), (DiffAngleOffset lay, 4),
      (AttenuationOffset lay, 16), (DiffuseOffset lay, 16), (DirectionOffset lay, 12),
      (PerpectiveOffset lay, 64), (SpecularOffset lay, 12), (TranslationOffset lay, 12)]"

definition ranges_of :: "(nat \<times> 'a list) list \<Rightarrow> (nat \<times> nat) list" where
  "ranges_of fs = map (\<lambda>(off, vs). (off, 4 * length vs)) fs"

fun separate :: "nat \<times> nat \<Rightarrow> nat \<times> nat \<Rightarrow> bool" where
  "separate (a, n) (b, m) = (a + n \<le> b \<or> b + m \<le> a)"

fun disjoint_ranges :: "(nat \<times> nat) list \<Rightarrow> bool" where
  "disjoint_ranges [] = True"
| "disjoint_ranges (r # rs) = (list_all (separate r) rs \<and> disjoint_ranges rs)"

definition layout_ok :: "layout \<Rightarrow> bool" where
  "layout_ok lay =
     (list_all (\<lambda>(off, n). off + n \<le> sizeof_DataType lay) (field_ranges lay)
      \<and> disjoint_ranges (field_ranges lay))"

text \<open>
  One complete record per light, the first at \<open>data\<close> and each next one \<open>step\<close>
  bytes further: what the specification says a call leaves in the destination.
\<close>

fun store_records ::
  "'a arith \<Rightarrow> layout \<Rightarrow> 'a renderblock \<Rightarrow> 'a memory \<Rightarrow> nat \<Rightarrow> nat \<Rightarrow> 'a light list \<Rightarrow> 'a memory" where
  "store_records ar lay stats mem data step [] = mem"
| "store_records ar lay stats mem data step (l # ls) =
     store_records ar lay stats (store_record lay mem data (spec_record ar stats l)) (data + step) step ls"

text \<open>The lights of the range \<open>[b, e)\<close>.\<close>

definition range_lights :: "'a world \<Rightarrow> nat \<Rightarrow> nat \<Rightarrow> 'a light list" where
  "range_lights w b e = take (e - b) (drop b (w_lights w))"


text \<open>
  What a caller finds after a call: \<open>n\<close> scalars read at offset \<open>off\<close> of the
  slot of the \<open>i\<close>-th light of the range. The result is \<open>None\<close> when the call has no
  result or the memory there does not hold \<open>n\<close> whole scalars.
\<close>
definition translateBuffer_reads ::
  "'a arith \<Rightarrow> layout \<Rightarrow> 'a world \<Rightarrow> nat \<Rightarrow> nat \<Rightarrow> nat \<Rightarrow> nat \<Rightarrow> nat \<Rightarrow> nat \<Rightarrow> 'a list option" where
  "translateBuffer_reads ar lay w data b e i off n =
     (case translateBuffer ar lay w data b e of
        None \<Rightarrow> None
      | Some (w', d') \<Rightarrow> load_floats (w_mem w') (data + i * sizeof_DataType lay + off) n)"

definition translateUniforms_reads ::
  "'a arith \<Rightarrow> layout \<Rightarrow> 'a world \<Rightarrow> nat \<Rightarrow> nat \<Rightarrow> nat \<Rightarrow> nat \<Rightarrow> nat \<Rightarrow> nat \<Rightarrow> nat \<Rightarrow> 'a list option" where
  "translateUniforms_reads ar lay w data step b e i off n =
     (case translateUniforms ar lay w data step b e of
        None \<Rightarrow> None
      | Some (w', d') \<Rightarrow> load_floats (w_mem w') (data + i * step + off) n)"



section \<open>Example data\<close>

text \<open>
  A layout with the fields packed in the order of the specification's data model, a
  light with inner angle 10, outer angle 30 and translation \<open>(0, 0, -5)\<close>, a second
  light, and a frame whose two matrices are the identity.
\<close>

definition example_layout :: layout where
  "example_layout =
     \<lparr> InnerAngleOffset = 0, OuterAngleOffset = 4, DiffAngleOffset = 8, AttenuationOffset = 12,
       DiffuseOffset = 28, DirectionOffset = 44, PerpectiveOffset = 80, SpecularOffset = 56,
       TranslationOffset = 68, sizeof_DataType = 144 \<rparr>"

definition example_light :: "real light" where
  "example_light =
     \<lparr> innerAngle = 10, outerAngle = 30, attenuation = Vec3 1 0 0, depth = 100,
       diffuse = Vec4 1 1 1 1, specular = Vec3 1 1 1, direction = Vec3 0 0 (-1),
       translation = Vec3 0 0 (-5),
       toMatrix = Mat4 (Vec4 1 0 0 0) (Vec4 0 1 0 0) (Vec4 0 0 1 0) (Vec4 0 0 (-5) 1) \<rparr>"

definition second_light :: "real light" where
  "second_light = example_light\<lparr> direction := Vec3 0 1 0, translation := Vec3 1 2 3 \<rparr>"

definition example_world :: "real world" where
  "example_world =
     \<lparr> w_lights = [example_light, second_light],
       w_stats = \<lparr> worldToView = identity4 exact, worldToPersp = identity4 exact \<rparr>,
       w_mem = (\<lambda>p. Raw 0) \<rparr>"

text \<open>
  A frame with a camera: the view matrix is a quarter turn about the x axis followed
  by the translation \<open>(1, 2, 3)\<close>, the perspective matrix scales and has a
  perspective row. Neither commutes with the example light's own matrix.
\<close>

definition camera_world :: "real world" where
  "camera_world =
     \<lparr> w_lights = [example_light, second_light],
       w_stats = \<lparr> worldToView = Mat4 (Vec4 1 0 0 0) (Vec4 0 0 1 0) (Vec4 0 (-1) 0 0) (Vec4 1 2 3 1),
                   worldToPersp = Mat4 (Vec4 2 0 0 0) (Vec4 0 3 0 0) (Vec4 0 0 4 (-1)) (Vec4 0 0 5 0) \<rparr>,
       w_mem = (\<lambda>p. Raw 0) \<rparr>"



section \<open>Stores and loads\<close>


lemma store_float_same: "load_float (store_float mem a v) a = Some v"
  by (simp add: load_float_def store_float_def)

lemma store_floats_outside:
  "p < a \<or> a + 4 * length vs \<le> p \<Longrightarrow> store_floats mem a vs p = mem p"
  by (induction vs arbitrary: mem a) (auto simp: store_float_def)

lemma load_float_cong:
  "(\<And>p. a \<le> p \<Longrightarrow> p < a + 4 \<Longrightarrow> mem p = mem' p) \<Longrightarrow> load_float mem a = load_float mem' a"
  by (simp add: load_float_def split: memval.splits)

lemma load_floats_cong:
  "(\<And>p. a \<le> p \<Longrightarrow> p < a + 4 * n \<Longrightarrow> mem p = mem' p) \<Longrightarrow> load_floats mem a n = load_floats mem' a n"
proof (induction n arbitrary: a)
  case 0
  then show ?case by simp
next
  case (Suc n)
  have "load_float mem a = load_float mem' a"
    by (rule load_float_cong) (simp add: Suc.prems)
  moreover have "load_floats mem (a + 4) n = load_floats mem' (a + 4) n"
    by (rule Suc.IH) (simp add: Suc.prems)
  ultimately show ?case by (simp split: option.splits)
qed

lemma load_store_floats_same: "load_floats (store_floats mem a vs) a (length vs) = Some vs"
proof (induction vs arbitrary: mem a)
  case Nil
  then show ?case by simp
next
  case (Cons v vs)
  have "load_float (store_floats (store_float mem a v) (a + 4) vs) a = load_float (store_float mem a v) a"
    by (rule load_float_cong) (simp add: store_floats_outside)
  then show ?case by (simp add: store_float_same Cons.IH)
qed

lemma load_store_floats_other:
  "separate (a, 4 * length vs) (b, 4 * n) \<Longrightarrow> load_floats (store_floats mem a vs) b n = load_floats mem b n"
  by (rule load_floats_cong) (auto simp: store_floats_outside)


lemma length_floats_of_vec3 [simp]: "length (floats_of_vec3 v) = 3"
  by (cases v) simp

lemma length_floats_of_vec4 [simp]: "length (floats_of_vec4 v) = 4"
  by (cases v) simp

lemma length_floats_of_mat4 [simp]: "length (floats_of_mat4 m) = 16"
  by (cases m) simp

lemma ranges_of_DataType_fields: "ranges_of (DataType_fields lay d) = field_ranges lay"
  by (simp add: ranges_of_def DataType_fields_def field_ranges_def)


lemma store_fields_below: "p < dest \<Longrightarrow> store_fields mem dest fs p = mem p"
  by (induction fs arbitrary: mem) (auto simp: store_floats_outside)

lemma store_fields_keeps:
  "list_all (separate (off, 4 * n)) (ranges_of fs)
   \<Longrightarrow> load_floats (store_fields mem dest fs) (dest + off) n = load_floats mem (dest + off) n"
proof (induction fs arbitrary: mem)
  case Nil
  then show ?case by simp
next
  case (Cons f fs)
  obtain o' vs where f: "f = (o', vs)" by (cases f)
  from Cons.prems f have sep: "separate (dest + o', 4 * length vs) (dest + off, 4 * n)"
    and rest: "list_all (separate (off, 4 * n)) (ranges_of fs)"
    by (auto simp: ranges_of_def)
  show ?case
    using Cons.IH [OF rest] load_store_floats_other [OF sep] by (simp add: f)
qed

lemma store_fields_holds:
  "disjoint_ranges (ranges_of fs) \<Longrightarrow> holds_fields (store_fields mem dest fs) dest fs"
proof (induction fs arbitrary: mem)
  case Nil
  then show ?case by (simp add: holds_fields_def)
next
  case (Cons f fs)
  obtain off vs where f: "f = (off, vs)" by (cases f)
  from Cons.prems f have sep: "list_all (separate (off, 4 * length vs)) (ranges_of fs)"
    and rest: "disjoint_ranges (ranges_of fs)"
    by (simp_all add: ranges_of_def)
  have "load_floats (store_fields (store_floats mem (dest + off) vs) dest fs) (dest + off) (length vs) = Some vs"
    using store_fields_keeps [OF sep] by (simp add: load_store_floats_same)
  moreover have "holds_fields (store_fields (store_floats mem (dest + off) vs) dest fs) dest fs"
    by (rule Cons.IH [OF rest])
  ultimately show ?case by (simp add: f holds_fields_def)
qed

lemma holds_fields_cong:
  assumes inside: "list_all (\<lambda>(off, n). off + n \<le> sz) (ranges_of fs)"
    and same: "\<And>p. dest \<le> p \<Longrightarrow> p < dest + sz \<Longrightarrow> mem p = mem' p"
  shows "holds_fields mem dest fs = holds_fields mem' dest fs"
  using inside
proof (induction fs)
  case Nil
  then show ?case by (simp add: holds_fields_def)
next
  case (Cons f fs)
  obtain off vs where f: "f = (off, vs)" by (cases f)
  from Cons.prems f have le: "off + 4 * length vs \<le> sz"
    and rest: "list_all (\<lambda>(off, n). off + n \<le> sz) (ranges_of fs)"
    by (simp_all add: ranges_of_def)
  have "load_floats mem (dest + off) (length vs) = load_floats mem' (dest + off) (length vs)"
    by (rule load_floats_cong) (use le in \<open>auto intro: same\<close>)
  with Cons.IH [OF rest] show ?case by (simp add: f holds_fields_def)
qed

lemma store_record_holds:
  "layout_ok lay \<Longrightarrow> holds_record lay (store_record lay mem dest d) dest d"
  unfolding holds_record_def store_record_def layout_ok_def
  by (rule store_fields_holds) (simp add: ranges_of_DataType_fields)

lemma store_record_below: "p < dest \<Longrightarrow> store_record lay mem dest d p = mem p"
  by (simp add: store_record_def store_fields_below)


lemma holds_record_cong:
  assumes "layout_ok lay"
    and "\<And>p. dest \<le> p \<Longrightarrow> p < dest + sizeof_DataType lay \<Longrightarrow> mem p = mem' p"
  shows "holds_record lay mem dest d = holds_record lay mem' dest d"
  unfolding holds_record_def
  by (rule holds_fields_cong [where sz = "sizeof_DataType lay"])
     (use assms in \<open>simp_all add: ranges_of_DataType_fields layout_ok_def\<close>)

lemma translateBuffer_body_eq:
  "translateBuffer_body ar lay stats mem dest l = store_record lay mem dest (spec_record ar stats l)"
  by (simp add: translateBuffer_body_def store_record_def DataType_fields_def spec_record_def
      store_vec3_def store_vec4_def store_mat4_def)

lemma translateUniforms_body_eq:
  "translateUniforms_body ar lay stats mem dest l = store_record lay mem dest (spec_record ar stats l)"
  by (simp add: translateUniforms_body_def store_record_def DataType_fields_def spec_record_def
      store_vec3_def store_vec4_def store_mat4_def)


lemma store_records_below:
  "p < data \<Longrightarrow> store_records ar lay stats mem data step ls p = mem p"
  by (induction ls arbitrary: mem data) (simp_all add: store_record_below)



lemma store_records_holds:
  "layout_ok lay \<Longrightarrow> i < length ls \<Longrightarrow> sizeof_DataType lay \<le> step \<or> Suc i = length ls
   \<Longrightarrow> holds_record lay (store_records ar lay stats mem data step ls) (data + i * step)
         (spec_record ar stats (ls ! i))"
proof (induction ls arbitrary: mem data i)
  case Nil
  then show ?case by simp
next
  case (Cons l ls)
  let ?m = "store_record lay mem data (spec_record ar stats l)"
  show ?case
  proof (cases i)
    case 0
    have here: "holds_record lay ?m data (spec_record ar stats l)"
      by (rule store_record_holds [OF Cons.prems(1)])
    have "holds_record lay (store_records ar lay stats ?m (data + step) step ls) data (spec_record ar stats l)
          = holds_record lay ?m data (spec_record ar stats l)"
    proof (cases ls)
      case Nil
      then show ?thesis by simp
    next
      case (Cons l' ls')
      with Cons.prems(3) 0 have "sizeof_DataType lay \<le> step" by simp
      then show ?thesis
        by (intro holds_record_cong [OF Cons.prems(1)] store_records_below) simp
    qed
    with here 0 show ?thesis by simp
  next
    case (Suc j)
    from Cons.prems Suc have "j < length ls" "sizeof_DataType lay \<le> step \<or> Suc j = length ls"
      by simp_all
    from Cons.IH [OF Cons.prems(1) this, of ?m "data + step"] Suc
    show ?thesis by (simp add: add.assoc add.commute [of step])
  qed
qed

lemma length_range_lights:
  "e \<le> length (w_lights w) \<Longrightarrow> length (range_lights w b e) = e - b"
  by (simp add: range_lights_def)

lemma range_lights_nth:
  "e \<le> length (w_lights w) \<Longrightarrow> i < e - b \<Longrightarrow> range_lights w b e ! i = w_lights w ! (b + i)"
  by (simp add: range_lights_def)

lemma range_lights_step:
  "b < e \<Longrightarrow> e \<le> length (w_lights w)
   \<Longrightarrow> range_lights w b e = w_lights w ! b # range_lights w (Suc b) e"
proof -
  assume be: "b < e" and el: "e \<le> length (w_lights w)"
  then have "drop b (w_lights w) = w_lights w ! b # drop (Suc b) (w_lights w)"
    by (simp add: Cons_nth_drop_Suc)
  moreover from be have "e - b = Suc (e - Suc b)" by simp
  ultimately show ?thesis by (simp add: range_lights_def)
qed

lemma range_lights_mem [simp]: "range_lights (w\<lparr>w_mem := m\<rparr>) b e = range_lights w b e"
  by (simp add: range_lights_def)

lemma translateBuffer_run:
  "b \<le> e \<Longrightarrow> e \<le> length (w_lights w)
   \<Longrightarrow> translateBuffer ar lay w data b e
       = Some (w\<lparr>w_mem := store_records ar lay (w_stats w) (w_mem w) data (sizeof_DataType lay)
                            (range_lights w b e)\<rparr>,
               data + (e - b) * sizeof_DataType lay)"
proof (induction "e - b" arbitrary: b w data)
  case 0
  then have "b = e" by simp
  then show ?case by (subst translateBuffer.simps) (simp add: range_lights_def)
next
  case (Suc n)
  then have be: "b < e" and n: "n = e - Suc b" and sb: "Suc b \<le> e" by simp_all
  let ?w = "w\<lparr>w_mem := translateBuffer_body ar lay (w_stats w) (w_mem w) data (w_lights w ! b)\<rparr>"
  have el: "e \<le> length (w_lights ?w)" using Suc.prems by simp
  from be have "e - b = Suc (e - Suc b)" by simp
  then have cnt: "(e - b) * sizeof_DataType lay = sizeof_DataType lay + (e - Suc b) * sizeof_DataType lay"
    by (simp del: Suc_diff_Suc)
  have "translateBuffer ar lay w data b e
        = translateBuffer ar lay ?w (data + sizeof_DataType lay) (Suc b) e"
    using be Suc.prems by (subst translateBuffer.simps) simp
  also have "\<dots> = Some (?w\<lparr>w_mem := store_records ar lay (w_stats ?w) (w_mem ?w)
                        (data + sizeof_DataType lay) (sizeof_DataType lay) (range_lights ?w (Suc b) e)\<rparr>,
                     data + sizeof_DataType lay + (e - Suc b) * sizeof_DataType lay)"
    by (rule Suc.hyps(1) [OF n sb el])
  finally show ?case
    using cnt by (simp add: range_lights_step [OF be Suc.prems(2)] translateBuffer_body_eq)
qed

lemma translateUniforms_run:
  "b \<le> e \<Longrightarrow> e \<le> length (w_lights w)
   \<Longrightarrow> translateUniforms ar lay w data step b e
       = Some (w\<lparr>w_mem := store_records ar lay (w_stats w) (w_mem w) data step (range_lights w b e)\<rparr>,
               data + (e - b) * step)"
proof (induction "e - b" arbitrary: b w data)
  case 0
  then have "b = e" by simp
  then show ?case by (subst translateUniforms.simps) (simp add: range_lights_def)
next
  case (Suc n)
  then have be: "b < e" and n: "n = e - Suc b" and sb: "Suc b \<le> e" by simp_all
  let ?w = "w\<lparr>w_mem := translateUniforms_body ar lay (w_stats w) (w_mem w) data (w_lights w ! b)\<rparr>"
  have el: "e \<le> length (w_lights ?w)" using Suc.prems by simp
  from be have "e - b = Suc (e - Suc b)" by simp
  then have cnt: "(e - b) * step = step + (e - Suc b) * step"
    by (simp del: Suc_diff_Suc)
  have "translateUniforms ar lay w data step b e
        = translateUniforms ar lay ?w (data + step) step (Suc b) e"
    using be Suc.prems by (subst translateUniforms.simps) simp
  also have "\<dots> = Some (?w\<lparr>w_mem := store_records ar lay (w_stats ?w) (w_mem ?w)
                        (data + step) step (range_lights ?w (Suc b) e)\<rparr>,
                     data + step + (e - Suc b) * step)"
    by (rule Suc.hyps(1) [OF n sb el])
  finally show ?case
    using cnt by (simp add: range_lights_step [OF be Suc.prems(2)] translateUniforms_body_eq)
qed


section \<open>The two loops compared\<close>

lemma bodies_equal:
  "translateUniforms_body ar lay stats mem dest l = translateBuffer_body ar lay stats mem dest l"
  by (simp add: translateUniforms_body_def translateBuffer_body_def)

lemma uniforms_imp_buffer:
  assumes "translateUniforms ar lay w data step b e = Some r"
  shows "step = sizeof_DataType lay \<longrightarrow> translateBuffer ar lay w data b e = Some r"
proof (rule translateUniforms.raw_induct
    [where P = "\<lambda>ar lay w data step b e r.
                  step = sizeof_DataType lay \<longrightarrow> translateBuffer ar lay w data b e = Some r",
     OF _ assms], goal_cases)
  case (1 f ar lay w data step b e r)
  show ?case
  proof (cases "b = e")
    case True
    with 1(2) show ?thesis by (subst translateBuffer.simps) simp
  next
    case False
    with 1(2) have lt: "b < length (w_lights w)" by (simp split: if_splits)
    with False 1(2) have "f ar lay
        (w\<lparr>w_mem := translateUniforms_body ar lay (w_stats w) (w_mem w) data (w_lights w ! b)\<rparr>)
        (data + step) step (b + 1) e = Some r" by simp
    from 1(1) [OF this] False lt show ?thesis
      by (subst translateBuffer.simps) (simp add: bodies_equal)
  qed
qed

lemma buffer_imp_uniforms:
  assumes "translateBuffer ar lay w data b e = Some r"
  shows "translateUniforms ar lay w data (sizeof_DataType lay) b e = Some r"
proof (rule translateBuffer.raw_induct
    [where P = "\<lambda>ar lay w data b e r.
                  translateUniforms ar lay w data (sizeof_DataType lay) b e = Some r",
     OF _ assms], goal_cases)
  case (1 f ar lay w data b e r)
  show ?case
  proof (cases "b = e")
    case True
    with 1(2) show ?thesis by (subst translateUniforms.simps) simp
  next
    case False
    with 1(2) have lt: "b < length (w_lights w)" by (simp split: if_splits)
    with False 1(2) have "f ar lay
        (w\<lparr>w_mem := translateBuffer_body ar lay (w_stats w) (w_mem w) data (w_lights w ! b)\<rparr>)
        (data + sizeof_DataType lay) (b + 1) e = Some r" by simp
    from 1(1) [OF this] False lt show ?thesis
      by (subst translateUniforms.simps) (simp add: bodies_equal)
  qed
qed

lemma natural_stride_eq:
  "translateUniforms ar lay w data (sizeof_DataType lay) b e = translateBuffer ar lay w data b e"
proof (cases "translateBuffer ar lay w data b e")
  case None
  show ?thesis
  proof (cases "translateUniforms ar lay w data (sizeof_DataType lay) b e")
    case None
    with \<open>translateBuffer ar lay w data b e = None\<close> show ?thesis by simp
  next
    case (Some r)
    from uniforms_imp_buffer [OF this] None show ?thesis by simp
  qed
next
  case (Some r)
  from buffer_imp_uniforms [OF this] Some show ?thesis by simp
qed

text \<open>A call returns only for iterators in order, and leaves the lights and the render block as they were.\<close>

lemma buffer_keeps_const:
  assumes "translateBuffer ar lay w data b e = Some r"
  shows "w_lights (fst r) = w_lights w \<and> w_stats (fst r) = w_stats w \<and> b \<le> e"
proof (rule translateBuffer.raw_induct
    [where P = "\<lambda>ar lay w data b e r.
                  w_lights (fst r) = w_lights w \<and> w_stats (fst r) = w_stats w \<and> b \<le> e",
     OF _ assms], goal_cases)
  case (1 f ar lay w data b e r)
  show ?case
  proof (cases "b = e")
    case True
    with 1(2) show ?thesis by auto
  next
    case False
    with 1(2) have lt: "b < length (w_lights w)" by (simp split: if_splits)
    with False 1(2) have "f ar lay
        (w\<lparr>w_mem := translateBuffer_body ar lay (w_stats w) (w_mem w) data (w_lights w ! b)\<rparr>)
        (data + sizeof_DataType lay) (b + 1) e = Some r" by simp
    from 1(1) [OF this] show ?thesis by simp
  qed
qed

lemma uniforms_keeps_const:
  assumes "translateUniforms ar lay w data step b e = Some r"
  shows "w_lights (fst r) = w_lights w \<and> w_stats (fst r) = w_stats w \<and> b \<le> e"
proof (rule translateUniforms.raw_induct
    [where P = "\<lambda>ar lay w data step b e r.
                  w_lights (fst r) = w_lights w \<and> w_stats (fst r) = w_stats w \<and> b \<le> e",
     OF _ assms], goal_cases)
  case (1 f ar lay w data step b e r)
  show ?case
  proof (cases "b = e")
    case True
    with 1(2) show ?thesis by auto
  next
    case False
    with 1(2) have lt: "b < length (w_lights w)" by (simp split: if_splits)
    with False 1(2) have "f ar lay
        (w\<lparr>w_mem := translateUniforms_body ar lay (w_stats w) (w_mem w) data (w_lights w ! b)\<rparr>)
        (data + step) step (b + 1) e = Some r" by simp
    from 1(1) [OF this] show ?thesis by simp
  qed
qed

text \<open>With the iterators out of order the loops have no result: \<^verbatim>\<open>begin\<close> never meets \<^verbatim>\<open>end\<close>.\<close>

lemma no_result_out_of_order:
  assumes "e < b"
  shows "translateBuffer ar lay w data b e = None \<and> translateUniforms ar lay w data step b e = None"
proof -
  have "translateBuffer ar lay w data b e = None"
  proof (cases "translateBuffer ar lay w data b e")
    case (Some r)
    from buffer_keeps_const [OF this] assms show ?thesis by simp
  qed simp
  moreover have "translateUniforms ar lay w data step b e = None"
  proof (cases "translateUniforms ar lay w data step b e")
    case (Some r)
    from uniforms_keeps_const [OF this] assms show ?thesis by simp
  qed simp
  ultimately show ?thesis by simp
qed

text \<open>A loop over \<open>[b, e)\<close> is the loop over \<open>[b, m)\<close> followed by the loop over \<open>[m, e)\<close>.\<close>

lemma store_records_append:
  "store_records ar lay stats mem data step (xs @ ys)
   = store_records ar lay stats (store_records ar lay stats mem data step xs)
       (data + length xs * step) step ys"
  by (induction xs arbitrary: mem data) (simp_all add: add.assoc)

lemma range_lights_append:
  assumes "b \<le> m" "m \<le> e"
  shows "range_lights w b e = range_lights w b m @ range_lights w m e"
proof -
  from assms have "e - b = (m - b) + (e - m)" by simp
  then have "take (e - b) (drop b (w_lights w))
             = take (m - b) (drop b (w_lights w)) @ take (e - m) (drop (m - b) (drop b (w_lights w)))"
    by (simp only: take_add)
  with assms show ?thesis by (simp add: range_lights_def)
qed

lemma translateUniforms_split:
  assumes "b \<le> m" "m \<le> e" "e \<le> length (w_lights w)"
    and "translateUniforms ar lay w data step b m = Some (w', d')"
  shows "translateUniforms ar lay w data step b e = translateUniforms ar lay w' d' step m e"
proof -
  from assms have ml: "m \<le> length (w_lights w)" by simp
  from assms(4) have w': "w' = w\<lparr>w_mem := store_records ar lay (w_stats w) (w_mem w) data step
                                 (range_lights w b m)\<rparr>"
    and d': "d' = data + (m - b) * step"
    by (simp_all add: translateUniforms_run [OF assms(1) ml])
  have el: "e \<le> length (w_lights w')" using assms(3) by (simp add: w')
  from assms have cnt: "(e - b) * step = (m - b) * step + (e - m) * step"
    by (simp add: add_mult_distrib [symmetric])
  have "translateUniforms ar lay w' d' step m e
        = Some (w'\<lparr>w_mem := store_records ar lay (w_stats w') (w_mem w') d' step (range_lights w' m e)\<rparr>,
                d' + (e - m) * step)"
    by (rule translateUniforms_run [OF assms(2) el])
  also have "\<dots> = Some (w\<lparr>w_mem := store_records ar lay (w_stats w) (w_mem w) data step
                                   (range_lights w b e)\<rparr>,
                         data + (e - b) * step)"
    using ml by (simp add: w' d' cnt range_lights_append [OF assms(1,2)] store_records_append
        length_range_lights)
  also have "\<dots> = translateUniforms ar lay w data step b e"
    by (rule translateUniforms_run [OF order_trans [OF assms(1,2)] assms(3), symmetric])
  finally show ?thesis by simp
qed

lemma translateBuffer_split:
  assumes "b \<le> m" "m \<le> e" "e \<le> length (w_lights w)"
    and "translateBuffer ar lay w data b m = Some (w', d')"
  shows "translateBuffer ar lay w data b e = translateBuffer ar lay w' d' m e"
  unfolding natural_stride_eq [symmetric]
  by (rule translateUniforms_split [OF assms(1-3)]) (simp add: natural_stride_eq assms(4))


section \<open>Reading the records back\<close>

lemma holds_record_field:
  "holds_record lay mem dest d \<Longrightarrow> (off, vs) \<in> set (DataType_fields lay d)
   \<Longrightarrow> load_floats mem (dest + off) (length vs) = Some vs"
  by (auto simp: holds_record_def holds_fields_def list_all_iff)

lemma buffer_reads_field:
  assumes "layout_ok lay" "b \<le> e" "e \<le> length (w_lights w)" "i < e - b"
    and "(off, vs) \<in> set (DataType_fields lay (spec_record ar (w_stats w) (w_lights w ! (b + i))))"
    and "length vs = n"
  shows "translateBuffer_reads ar lay w data b e i off n = Some vs"
proof -
  have len: "i < length (range_lights w b e)"
    using assms by (simp add: length_range_lights)
  have "holds_record lay
          (store_records ar lay (w_stats w) (w_mem w) data (sizeof_DataType lay) (range_lights w b e))
          (data + i * sizeof_DataType lay) (spec_record ar (w_stats w) (range_lights w b e ! i))"
    by (rule store_records_holds [OF assms(1) len]) simp
  then have "holds_record lay
          (store_records ar lay (w_stats w) (w_mem w) data (sizeof_DataType lay) (range_lights w b e))
          (data + i * sizeof_DataType lay) (spec_record ar (w_stats w) (w_lights w ! (b + i)))"
    using assms by (simp add: range_lights_nth)
  from holds_record_field [OF this assms(5)] assms(6) show ?thesis
    by (simp add: translateBuffer_reads_def translateBuffer_run [OF assms(2,3)])
qed

lemma uniforms_reads_field:
  assumes "layout_ok lay" "b \<le> e" "e \<le> length (w_lights w)" "i < e - b"
    and "sizeof_DataType lay \<le> step \<or> Suc i = e - b"
    and "(off, vs) \<in> set (DataType_fields lay (spec_record ar (w_stats w) (w_lights w ! (b + i))))"
    and "length vs = n"
  shows "translateUniforms_reads ar lay w data step b e i off n = Some vs"
proof -
  have len: "i < length (range_lights w b e)"
    using assms by (simp add: length_range_lights)
  have "holds_record lay
          (store_records ar lay (w_stats w) (w_mem w) data step (range_lights w b e))
          (data + i * step) (spec_record ar (w_stats w) (range_lights w b e ! i))"
    by (rule store_records_holds [OF assms(1) len]) (use assms in \<open>simp add: length_range_lights\<close>)
  then have "holds_record lay
          (store_records ar lay (w_stats w) (w_mem w) data step (range_lights w b e))
          (data + i * step) (spec_record ar (w_stats w) (w_lights w ! (b + i)))"
    using assms by (simp add: range_lights_nth)
  from holds_record_field [OF this assms(6)] assms(7) show ?thesis
    by (simp add: translateUniforms_reads_def translateUniforms_run [OF assms(2,3)])
qed

lemma last_record_holds:
  assumes "layout_ok lay" "b + Suc k \<le> length (w_lights w)"
  shows "holds_record lay
           (store_records ar lay (w_stats w) (w_mem w) data step (range_lights w b (b + Suc k)))
           (data + k * step) (spec_record ar (w_stats w) (w_lights w ! (b + k)))"
proof -
  have len: "length (range_lights w b (b + Suc k)) = Suc k"
    using assms(2) by (simp add: length_range_lights)
  have "holds_record lay
           (store_records ar lay (w_stats w) (w_mem w) data step (range_lights w b (b + Suc k)))
           (data + k * step) (spec_record ar (w_stats w) (range_lights w b (b + Suc k) ! k))"
    by (rule store_records_holds [OF assms(1)]) (use len in simp_all)
  then show ?thesis using assms(2) by (simp add: range_lights_nth)
qed

lemma example_layout_ok: "layout_ok example_layout"
  by (simp add: layout_ok_def field_ranges_def example_layout_def)

lemma example_world_lights: "length (w_lights example_world) = 2"
  by (simp add: example_world_def)


section \<open>Exact arithmetic\<close>

lemma mat_vec_identity: "mat_vec exact (identity4 exact) v = v"
  by (cases v) (simp add: identity4_def exact_def)

lemma mat_mat_identity: "mat_mat exact (identity4 exact) m = m"
  by (cases m) (simp add: mat_vec_identity)

section \<open>Arithmetic that rounds\<close>








lemma rounding_exact: "0 \<le> eps \<Longrightarrow> rounding eps exact"
  by (simp add: rounding_def exact_def)







section \<open>The claims\<close>



text \<open>
  Claim C2. For every light of the range, the angle-delta field of its record holds
  the outer angle minus the inner angle, as the subtraction of the scalar arithmetic
  gives it. For \<^verbatim>\<open>translateBuffer\<close> this is every record of the range; for
  \<^verbatim>\<open>translateUniforms\<close> every record that no later record overlaps (the stride
  is at least the record size) and, whatever the stride, the last one.
\<close>

theorem angle_delta_is_outer_minus_inner:
  assumes "layout_ok lay" "b \<le> e" "e \<le> length (w_lights w)" "i < e - b"
  shows "translateBuffer_reads ar lay w data b e i (DiffAngleOffset lay) 1
           = Some [f_sub ar (outerAngle (w_lights w ! (b + i))) (innerAngle (w_lights w ! (b + i)))]
       \<and> (sizeof_DataType lay \<le> step \<or> Suc i = e - b \<longrightarrow>
            translateUniforms_reads ar lay w data step b e i (DiffAngleOffset lay) 1
              = Some [f_sub ar (outerAngle (w_lights w ! (b + i))) (innerAngle (w_lights w ! (b + i)))])"
proof -
  let ?l = "w_lights w ! (b + i)"
  have f: "(DiffAngleOffset lay, [f_sub ar (outerAngle ?l) (innerAngle ?l)])
           \<in> set (DataType_fields lay (spec_record ar (w_stats w) ?l))"
    by (simp add: DataType_fields_def spec_record_def)
  have "translateBuffer_reads ar lay w data b e i (DiffAngleOffset lay) 1
           = Some [f_sub ar (outerAngle ?l) (innerAngle ?l)]"
    by (rule buffer_reads_field [OF assms f]) simp
  moreover have "translateUniforms_reads ar lay w data step b e i (DiffAngleOffset lay) 1
              = Some [f_sub ar (outerAngle ?l) (innerAngle ?l)]"
    if "sizeof_DataType lay \<le> step \<or> Suc i = e - b"
    by (rule uniforms_reads_field [OF assms that f]) simp
  ultimately show ?thesis by blast
qed

theorem angle_delta_is_outer_minus_inner_witness:
  "layout_ok example_layout \<and> (0::nat) \<le> 2 \<and> 2 \<le> length (w_lights example_world) \<and> (1::nat) < 2 - 0
   \<and> translateBuffer_reads exact example_layout example_world 0 0 2 1 (DiffAngleOffset example_layout) 1
       = Some [20]
   \<and> translateUniforms_reads exact example_layout example_world 0 0 0 2 1 (DiffAngleOffset example_layout) 1
       = Some [20]"
  using angle_delta_is_outer_minus_inner [of example_layout 0 2 example_world 1 exact 0 0]
  by (simp add: example_layout_ok example_world_def exact_def example_light_def second_light_def)




text \<open>
  Claim C4. For every light, the position field of its record holds the first three
  components of the product of the world-to-view matrix with the light's translation
  extended by \<open>w = 1\<close>: component \<open>k\<close> is the sum of the products of row \<open>k\<close> of
  the matrix with \<open>(x, y, z, 1)\<close>, so the translation column of the matrix is added.
\<close>

theorem position_is_view_transform_of_translation:
  assumes "layout_ok lay" "b \<le> e" "e \<le> length (w_lights w)" "i < e - b"
  shows "translateBuffer_reads ar lay w data b e i (TranslationOffset lay) 3
           = Some (floats_of_vec3 (glm_vec3 (mat_vec ar (worldToView (w_stats w))
                     (ToGlm (translation (w_lights w ! (b + i))) (f_one ar)))))
       \<and> (sizeof_DataType lay \<le> step \<or> Suc i = e - b \<longrightarrow>
            translateUniforms_reads ar lay w data step b e i (TranslationOffset lay) 3
              = Some (floats_of_vec3 (glm_vec3 (mat_vec ar (worldToView (w_stats w))
                        (ToGlm (translation (w_lights w ! (b + i))) (f_one ar))))))
       \<and> floats_of_vec3 (glm_vec3 (mat_vec ar
             (Mat4 (Vec4 a0 a1 a2 a3) (Vec4 b0 b1 b2 b3) (Vec4 c0 c1 c2 c3) (Vec4 d0 d1 d2 d3))
             (ToGlm (Vec3 x y z) (f_one ar))))
           = [f_add ar (f_add ar (f_add ar (f_mul ar a0 x) (f_mul ar b0 y)) (f_mul ar c0 z))
                (f_mul ar d0 (f_one ar)),
              f_add ar (f_add ar (f_add ar (f_mul ar a1 x) (f_mul ar b1 y)) (f_mul ar c1 z))
                (f_mul ar d1 (f_one ar)),
              f_add ar (f_add ar (f_add ar (f_mul ar a2 x) (f_mul ar b2 y)) (f_mul ar c2 z))
                (f_mul ar d2 (f_one ar))]"
proof -
  let ?l = "w_lights w ! (b + i)"
  let ?v = "floats_of_vec3 (glm_vec3 (mat_vec ar (worldToView (w_stats w)) (ToGlm (translation ?l) (f_one ar))))"
  have f: "(TranslationOffset lay, ?v) \<in> set (DataType_fields lay (spec_record ar (w_stats w) ?l))"
    by (simp add: DataType_fields_def spec_record_def)
  have one: "translateBuffer_reads ar lay w data b e i (TranslationOffset lay) 3 = Some ?v"
    by (rule buffer_reads_field [OF assms f]) simp
  have two: "translateUniforms_reads ar lay w data step b e i (TranslationOffset lay) 3 = Some ?v"
    if "sizeof_DataType lay \<le> step \<or> Suc i = e - b"
    by (rule uniforms_reads_field [OF assms that f]) simp
  from one two show ?thesis by simp
qed

theorem position_is_view_transform_of_translation_witness:
  "layout_ok example_layout \<and> (0::nat) \<le> 2 \<and> 2 \<le> length (w_lights camera_world) \<and> (0::nat) < 2 - 0
   \<and> worldToView (w_stats camera_world)
       = Mat4 (Vec4 1 0 0 0) (Vec4 0 0 1 0) (Vec4 0 (-1) 0 0) (Vec4 1 2 3 1)
   \<and> translation (w_lights camera_world ! (0 + 0)) = Vec3 0 0 (-5)
   \<and> translateBuffer_reads exact example_layout camera_world 0 0 2 0 (TranslationOffset example_layout) 3
       = Some [1, 7, 3]
   \<and> translateUniforms_reads exact example_layout camera_world 0 160 0 2 0 (TranslationOffset example_layout) 3
       = Some [1, 7, 3]"
proof -
  have l: "length (w_lights camera_world) = 2" by (simp add: camera_world_def)
  have sz: "sizeof_DataType example_layout = 144" by (simp add: example_layout_def)
  have v: "worldToView (w_stats camera_world)
            = Mat4 (Vec4 1 0 0 0) (Vec4 0 0 1 0) (Vec4 0 (-1) 0 0) (Vec4 1 2 3 1)"
    and t: "translation (w_lights camera_world ! 0) = Vec3 0 0 (-5)"
    by (simp_all add: camera_world_def example_light_def)
  from position_is_view_transform_of_translation
         [of example_layout 0 2 camera_world 0 exact 0 160, OF example_layout_ok]
  show ?thesis
    using example_layout_ok by (simp add: l sz v t) (simp add: exact_def)
qed

text \<open>
  Claim C5. For every light, the perspective-transform field of its record holds the
  world-to-perspective matrix times the light's local-to-world matrix, the
  world-to-perspective matrix on the left: column \<open>j\<close> of the field is the
  world-to-perspective matrix applied to column \<open>j\<close> of the light's matrix. In exact
  arithmetic, with the identity as view and perspective matrix, a light with inner
  angle 10, outer angle 30 and translation \<open>(0, 0, -5)\<close> gives angle delta 20,
  position \<open>(0, 0, -5)\<close> and the light's own local-to-world matrix as perspective
  transform.
\<close>

theorem perspective_is_persp_times_local:
  assumes "layout_ok lay" "b \<le> e" "e \<le> length (w_lights w)" "e \<le> length (w_lights wr)" "i < e - b"
  shows "translateBuffer_reads ar lay w data b e i (PerpectiveOffset lay) 16
           = Some (floats_of_mat4 (mat_mat ar (worldToPersp (w_stats w)) (toMatrix (w_lights w ! (b + i)))))
       \<and> (sizeof_DataType lay \<le> step \<or> Suc i = e - b \<longrightarrow>
            translateUniforms_reads ar lay w data step b e i (PerpectiveOffset lay) 16
              = Some (floats_of_mat4 (mat_mat ar (worldToPersp (w_stats w)) (toMatrix (w_lights w ! (b + i))))))
       \<and> floats_of_mat4 (mat_mat ar
             (Mat4 (Vec4 a0 a1 a2 a3) (Vec4 b0 b1 b2 b3) (Vec4 c0 c1 c2 c3) (Vec4 d0 d1 d2 d3))
             (Mat4 m0 m1 m2 m3))
           = concat (map (\<lambda>m. case m of Vec4 x y z v \<Rightarrow>
               [f_add ar (f_add ar (f_add ar (f_mul ar a0 x) (f_mul ar b0 y)) (f_mul ar c0 z)) (f_mul ar d0 v),
                f_add ar (f_add ar (f_add ar (f_mul ar a1 x) (f_mul ar b1 y)) (f_mul ar c1 z)) (f_mul ar d1 v),
                f_add ar (f_add ar (f_add ar (f_mul ar a2 x) (f_mul ar b2 y)) (f_mul ar c2 z)) (f_mul ar d2 v),
                f_add ar (f_add ar (f_add ar (f_mul ar a3 x) (f_mul ar b3 y)) (f_mul ar c3 z)) (f_mul ar d3 v)])
               [m0, m1, m2, m3])
       \<and> (worldToView (w_stats wr) = identity4 exact \<and> worldToPersp (w_stats wr) = identity4 exact
            \<and> innerAngle (w_lights wr ! (b + i)) = 10 \<and> outerAngle (w_lights wr ! (b + i)) = 30
            \<and> translation (w_lights wr ! (b + i)) = Vec3 0 0 (-5) \<longrightarrow>
            translateBuffer_reads exact lay wr data b e i (DiffAngleOffset lay) 1 = Some [20]
            \<and> translateBuffer_reads exact lay wr data b e i (TranslationOffset lay) 3 = Some [0, 0, -5]
            \<and> translateBuffer_reads exact lay wr data b e i (PerpectiveOffset lay) 16
                = Some (floats_of_mat4 (toMatrix (w_lights wr ! (b + i))))
            \<and> (sizeof_DataType lay \<le> step \<or> Suc i = e - b \<longrightarrow>
                 translateUniforms_reads exact lay wr data step b e i (DiffAngleOffset lay) 1 = Some [20]
                 \<and> translateUniforms_reads exact lay wr data step b e i (TranslationOffset lay) 3
                     = Some [0, 0, -5]
                 \<and> translateUniforms_reads exact lay wr data step b e i (PerpectiveOffset lay) 16
                     = Some (floats_of_mat4 (toMatrix (w_lights wr ! (b + i))))))"
proof -
  let ?l = "w_lights w ! (b + i)"
  let ?v = "floats_of_mat4 (mat_mat ar (worldToPersp (w_stats w)) (toMatrix ?l))"
  have f: "(PerpectiveOffset lay, ?v) \<in> set (DataType_fields lay (spec_record ar (w_stats w) ?l))"
    by (simp add: DataType_fields_def spec_record_def)
  have one: "translateBuffer_reads ar lay w data b e i (PerpectiveOffset lay) 16 = Some ?v"
    by (rule buffer_reads_field [OF assms(1,2,3,5) f]) simp
  have two: "translateUniforms_reads ar lay w data step b e i (PerpectiveOffset lay) 16 = Some ?v"
    if "sizeof_DataType lay \<le> step \<or> Suc i = e - b"
    by (rule uniforms_reads_field [OF assms(1,2,3,5) that f]) simp
  have formula: "floats_of_mat4 (mat_mat ar
             (Mat4 (Vec4 a0 a1 a2 a3) (Vec4 b0 b1 b2 b3) (Vec4 c0 c1 c2 c3) (Vec4 d0 d1 d2 d3))
             (Mat4 m0 m1 m2 m3))
           = concat (map (\<lambda>m. case m of Vec4 x y z v \<Rightarrow>
               [f_add ar (f_add ar (f_add ar (f_mul ar a0 x) (f_mul ar b0 y)) (f_mul ar c0 z)) (f_mul ar d0 v),
                f_add ar (f_add ar (f_add ar (f_mul ar a1 x) (f_mul ar b1 y)) (f_mul ar c1 z)) (f_mul ar d1 v),
                f_add ar (f_add ar (f_add ar (f_mul ar a2 x) (f_mul ar b2 y)) (f_mul ar c2 z)) (f_mul ar d2 v),
                f_add ar (f_add ar (f_add ar (f_mul ar a3 x) (f_mul ar b3 y)) (f_mul ar c3 z)) (f_mul ar d3 v)])
               [m0, m1, m2, m3])"
    by (cases m0; cases m1; cases m2; cases m3) simp
  let ?r = "w_lights wr ! (b + i)"
  have three: "translateBuffer_reads exact lay wr data b e i (DiffAngleOffset lay) 1 = Some [20]
            \<and> translateBuffer_reads exact lay wr data b e i (TranslationOffset lay) 3 = Some [0, 0, -5]
            \<and> translateBuffer_reads exact lay wr data b e i (PerpectiveOffset lay) 16
                = Some (floats_of_mat4 (toMatrix ?r))
            \<and> (sizeof_DataType lay \<le> step \<or> Suc i = e - b \<longrightarrow>
                 translateUniforms_reads exact lay wr data step b e i (DiffAngleOffset lay) 1 = Some [20]
                 \<and> translateUniforms_reads exact lay wr data step b e i (TranslationOffset lay) 3
                     = Some [0, 0, -5]
                 \<and> translateUniforms_reads exact lay wr data step b e i (PerpectiveOffset lay) 16
                     = Some (floats_of_mat4 (toMatrix ?r)))"
    if ex: "worldToView (w_stats wr) = identity4 exact \<and> worldToPersp (w_stats wr) = identity4 exact
            \<and> innerAngle ?r = 10 \<and> outerAngle ?r = 30 \<and> translation ?r = Vec3 0 0 (-5)"
  proof -
    let ?d = "spec_record exact (w_stats wr) ?r"
    have d: "m_diffAngle ?d = 20" "m_viewTrans ?d = Vec3 0 0 (-5)" "m_perspTrans ?d = toMatrix ?r"
      using ex by (simp_all add: spec_record_def mat_vec_identity mat_mat_identity) (simp add: exact_def)+
    have f1: "(DiffAngleOffset lay, [20]) \<in> set (DataType_fields lay ?d)"
      and f2: "(TranslationOffset lay, [0, 0, -5]) \<in> set (DataType_fields lay ?d)"
      and f3: "(PerpectiveOffset lay, floats_of_mat4 (toMatrix ?r)) \<in> set (DataType_fields lay ?d)"
      by (simp_all add: DataType_fields_def d)
    have b1: "translateBuffer_reads exact lay wr data b e i (DiffAngleOffset lay) 1 = Some [20]"
      by (rule buffer_reads_field [OF assms(1,2,4,5) f1]) simp
    have b2: "translateBuffer_reads exact lay wr data b e i (TranslationOffset lay) 3
                   = Some [0, 0, -5]"
      by (rule buffer_reads_field [OF assms(1,2,4,5) f2]) simp
    have b3: "translateBuffer_reads exact lay wr data b e i (PerpectiveOffset lay) 16
                   = Some (floats_of_mat4 (toMatrix ?r))"
      by (rule buffer_reads_field [OF assms(1,2,4,5) f3]) simp
    have u1: "translateUniforms_reads exact lay wr data step b e i (DiffAngleOffset lay) 1 = Some [20]"
      if "sizeof_DataType lay \<le> step \<or> Suc i = e - b"
      by (rule uniforms_reads_field [OF assms(1,2,4,5) that f1]) simp
    have u2: "translateUniforms_reads exact lay wr data step b e i (TranslationOffset lay) 3
                   = Some [0, 0, -5]"
      if "sizeof_DataType lay \<le> step \<or> Suc i = e - b"
      by (rule uniforms_reads_field [OF assms(1,2,4,5) that f2]) simp
    have u3: "translateUniforms_reads exact lay wr data step b e i (PerpectiveOffset lay) 16
                   = Some (floats_of_mat4 (toMatrix ?r))"
      if "sizeof_DataType lay \<le> step \<or> Suc i = e - b"
      by (rule uniforms_reads_field [OF assms(1,2,4,5) that f3]) simp
    from b1 b2 b3 u1 u2 u3 show ?thesis by blast
  qed
  from one two formula three show ?thesis by blast
qed

theorem perspective_is_persp_times_local_witness:
  "layout_ok example_layout \<and> (0::nat) \<le> 2 \<and> 2 \<le> length (w_lights camera_world)
   \<and> 2 \<le> length (w_lights example_world) \<and> (0::nat) < 2 - 0
   \<and> worldToPersp (w_stats camera_world)
       = Mat4 (Vec4 2 0 0 0) (Vec4 0 3 0 0) (Vec4 0 0 4 (-1)) (Vec4 0 0 5 0)
   \<and> toMatrix (w_lights camera_world ! (0 + 0))
       = Mat4 (Vec4 1 0 0 0) (Vec4 0 1 0 0) (Vec4 0 0 1 0) (Vec4 0 0 (-5) 1)
   \<and> translateBuffer_reads exact example_layout camera_world 0 0 2 0 (PerpectiveOffset example_layout) 16
       = Some [2, 0, 0, 0,  0, 3, 0, 0,  0, 0, 4, -1,  0, 0, -15, 5]
   \<and> translateUniforms_reads exact example_layout camera_world 0 160 0 2 0 (PerpectiveOffset example_layout) 16
       = Some [2, 0, 0, 0,  0, 3, 0, 0,  0, 0, 4, -1,  0, 0, -15, 5]
   \<and> floats_of_mat4 (mat_mat exact
         (Mat4 (Vec4 1 0 0 0) (Vec4 0 1 0 0) (Vec4 0 0 1 0) (Vec4 0 0 (-5) 1))
         (Mat4 (Vec4 2 0 0 0) (Vec4 0 3 0 0) (Vec4 0 0 4 (-1)) (Vec4 0 0 5 0)))
       = [2, 0, 0, 0,  0, 3, 0, 0,  0, 0, 9, -1,  0, 0, 5, 0]
   \<and> translateBuffer_reads exact example_layout example_world 0 0 2 0 (DiffAngleOffset example_layout) 1
       = Some [20]
   \<and> translateBuffer_reads exact example_layout example_world 0 0 2 0 (TranslationOffset example_layout) 3
       = Some [0, 0, -5]
   \<and> translateBuffer_reads exact example_layout example_world 0 0 2 0 (PerpectiveOffset example_layout) 16
       = Some [1, 0, 0, 0,  0, 1, 0, 0,  0, 0, 1, 0,  0, 0, -5, 1]
   \<and> translateUniforms_reads exact example_layout example_world 0 160 0 2 0 (PerpectiveOffset example_layout) 16
       = Some [1, 0, 0, 0,  0, 1, 0, 0,  0, 0, 1, 0,  0, 0, -5, 1]"
proof -
  have l: "length (w_lights camera_world) = 2" "length (w_lights example_world) = 2"
    by (simp_all add: camera_world_def example_world_def)
  have sz: "sizeof_DataType example_layout = 144" by (simp add: example_layout_def)
  have p: "worldToPersp (w_stats camera_world)
            = Mat4 (Vec4 2 0 0 0) (Vec4 0 3 0 0) (Vec4 0 0 4 (-1)) (Vec4 0 0 5 0)"
    and m: "toMatrix (w_lights camera_world ! 0)
            = Mat4 (Vec4 1 0 0 0) (Vec4 0 1 0 0) (Vec4 0 0 1 0) (Vec4 0 0 (-5) 1)"
    by (simp_all add: camera_world_def example_light_def)
  have ex: "worldToView (w_stats example_world) = identity4 exact"
    "worldToPersp (w_stats example_world) = identity4 exact"
    "innerAngle (w_lights example_world ! 0) = 10" "outerAngle (w_lights example_world ! 0) = 30"
    "translation (w_lights example_world ! 0) = Vec3 0 0 (-5)"
    "toMatrix (w_lights example_world ! 0)
       = Mat4 (Vec4 1 0 0 0) (Vec4 0 1 0 0) (Vec4 0 0 1 0) (Vec4 0 0 (-5) 1)"
    by (simp_all add: example_world_def example_light_def)
  from perspective_is_persp_times_local
         [of example_layout 0 2 camera_world example_world 0 exact 0 160
             1 0 0 0  0 1 0 0  0 0 1 0  0 0 "-5" 1
             "Vec4 2 0 0 0" "Vec4 0 3 0 0" "Vec4 0 0 4 (-1)" "Vec4 0 0 5 0",
          OF example_layout_ok]
  show ?thesis
    using example_layout_ok by (simp add: l sz p m ex) (simp add: exact_def)
qed

text \<open>
  Claim C6. Whatever the stride, the record of the \<open>k\<close>-th light of a call of
  \<^verbatim>\<open>translateUniforms\<close> starts \<open>k\<close> strides after the first: the loop over the
  first \<open>k + 1\<close> lights returns with that record complete at \<open>data + k * step\<close> and
  the pointer one stride further, where the rest of the call goes on. The same holds
  of \<^verbatim>\<open>translateBuffer\<close> with the record size as the stride.
\<close>

theorem consecutive_records_one_stride_apart:
  assumes "layout_ok lay" "b \<le> e" "e \<le> length (w_lights w)" "k < e - b"
  shows "(\<exists>w'. translateUniforms ar lay w data step b (b + Suc k) = Some (w', data + k * step + step)
            \<and> holds_record lay (w_mem w') (data + k * step)
                 (spec_record ar (w_stats w) (w_lights w ! (b + k)))
            \<and> translateUniforms ar lay w data step b e
                = translateUniforms ar lay w' (data + k * step + step) step (b + Suc k) e)
       \<and> (\<exists>w'. translateBuffer ar lay w data b (b + Suc k)
                  = Some (w', data + k * sizeof_DataType lay + sizeof_DataType lay)
            \<and> holds_record lay (w_mem w') (data + k * sizeof_DataType lay)
                 (spec_record ar (w_stats w) (w_lights w ! (b + k)))
            \<and> translateBuffer ar lay w data b e
                = translateBuffer ar lay w' (data + k * sizeof_DataType lay + sizeof_DataType lay)
                    (b + Suc k) e)"
proof -
  from assms have m: "b \<le> b + Suc k" "b + Suc k \<le> e" and ml: "b + Suc k \<le> length (w_lights w)"
    by simp_all
  let ?U = "w\<lparr>w_mem := store_records ar lay (w_stats w) (w_mem w) data step
                           (range_lights w b (b + Suc k))\<rparr>"
  let ?B = "w\<lparr>w_mem := store_records ar lay (w_stats w) (w_mem w) data (sizeof_DataType lay)
                           (range_lights w b (b + Suc k))\<rparr>"
  have u: "translateUniforms ar lay w data step b (b + Suc k) = Some (?U, data + k * step + step)"
    using translateUniforms_run [OF m(1) ml, of ar lay data step] by (simp add: add.commute)
  have bu: "translateBuffer ar lay w data b (b + Suc k)
            = Some (?B, data + k * sizeof_DataType lay + sizeof_DataType lay)"
    using translateBuffer_run [OF m(1) ml, of ar lay data] by (simp add: add.commute)
  have "holds_record lay (w_mem ?U) (data + k * step)
          (spec_record ar (w_stats w) (w_lights w ! (b + k)))"
    using last_record_holds [OF assms(1) ml] by simp
  moreover have "holds_record lay (w_mem ?B) (data + k * sizeof_DataType lay)
          (spec_record ar (w_stats w) (w_lights w ! (b + k)))"
    using last_record_holds [OF assms(1) ml] by simp
  moreover note translateUniforms_split [OF m assms(3) u] translateBuffer_split [OF m assms(3) bu] u bu
  ultimately show ?thesis by blast
qed

theorem consecutive_records_one_stride_apart_witness:
  "layout_ok example_layout \<and> (0::nat) \<le> 2 \<and> 2 \<le> length (w_lights example_world) \<and> (0::nat) < 2 - 0
   \<and> (\<exists>w'. translateUniforms exact example_layout example_world 0 7 0 (0 + Suc 0) = Some (w', 0 + 0 * 7 + 7)
          \<and> holds_record example_layout (w_mem w') (0 + 0 * 7)
               (spec_record exact (w_stats example_world) (w_lights example_world ! (0 + 0)))
          \<and> translateUniforms exact example_layout example_world 0 7 0 2
              = translateUniforms exact example_layout w' (0 + 0 * 7 + 7) 7 (0 + Suc 0) 2)
   \<and> (\<exists>w'. translateBuffer exact example_layout example_world 0 0 (0 + Suc 0)
              = Some (w', 0 + 0 * sizeof_DataType example_layout + sizeof_DataType example_layout)
          \<and> holds_record example_layout (w_mem w') (0 + 0 * sizeof_DataType example_layout)
               (spec_record exact (w_stats example_world) (w_lights example_world ! (0 + 0)))
          \<and> translateBuffer exact example_layout example_world 0 0 2
              = translateBuffer exact example_layout w'
                  (0 + 0 * sizeof_DataType example_layout + sizeof_DataType example_layout) (0 + Suc 0) 2)"
  using consecutive_records_one_stride_apart [OF example_layout_ok, of 0 2 example_world 0 exact 0 7]
  by (simp add: example_layout_ok example_world_lights)

text \<open>
  Claim C7. \<^verbatim>\<open>translateUniforms\<close> performs the per-light computation of
  \<^verbatim>\<open>translateBuffer\<close>: the two loop bodies write the same memory, and called with
  the size of a record as its stride, \<^verbatim>\<open>translateUniforms\<close> has the result of
  \<^verbatim>\<open>translateBuffer\<close> (the same destination memory and the same final pointer, or
  no result where that has none) for every world, destination and pair of iterators.
\<close>

theorem translateUniforms_natural_stride:
  "translateUniforms_body ar lay stats mem dest l = translateBuffer_body ar lay stats mem dest l
   \<and> translateUniforms ar lay w data (sizeof_DataType lay) b e = translateBuffer ar lay w data b e"
  using bodies_equal natural_stride_eq by blast

text \<open>
  Claim C8, as amended. \<^verbatim>\<open>initializeMesh\<close> declares six per-instance vertex
  attributes (not five), at slots 1, 2, 4, 5, 6 and 7, each with divisor 1:
  translation, direction, attenuation and diffuse with four float components,
  specular with three, and the perspective transform as four columns of four floats
  in the consecutive slots 7 to 10.
\<close>

theorem initializeMesh_declares_six_attributes:
  "length (initializeMesh_calls lay) = 6
   \<and> map call_location (initializeMesh_calls lay) = [1, 2, 4, 5, 6, 7]
   \<and> last (initializeMesh_calls lay)
       = VertexAttribPointerDivisorN 7 4 4 Float False (sizeof_DataType lay) (PerpectiveOffset lay) 1
   \<and> map a_location (initializeMesh lay []) = [1, 2, 4, 5, 6, 7, 8, 9, 10]
   \<and> map a_elements (initializeMesh lay []) = [4, 4, 4, 4, 3, 4, 4, 4, 4]
   \<and> map a_divisor (initializeMesh lay []) = [1, 1, 1, 1, 1, 1, 1, 1, 1]
   \<and> map a_type (initializeMesh lay []) = [Float, Float, Float, Float, Float, Float, Float, Float, Float]
   \<and> map a_offset (take 5 (initializeMesh lay []))
       = [TranslationOffset lay, DirectionOffset lay, AttenuationOffset lay, DiffuseOffset lay,
          SpecularOffset lay]
   \<and> map a_stride (initializeMesh lay []) = replicate 9 (sizeof_DataType lay)"
  by (simp add: initializeMesh_def initializeMesh_calls_def upt_rec numeral_eq_Suc)

text \<open>The counterexample to claim C8 as stated: the attributes declared are not five.\<close>

theorem initializeMesh_five_attributes_counterexample:
  "length (initializeMesh_calls example_layout) \<noteq> 5
   \<and> length (initializeMesh example_layout []) \<noteq> 5"
  by (simp add: initializeMesh_def initializeMesh_calls_def)

text \<open>
  Claim C9. For every light range \<open>[b, e)\<close> of the container, both loops terminate:
  each call returns, after \<open>e - b\<close> advances of the destination pointer.
\<close>

theorem translation_terminates:
  assumes "b \<le> e" "e \<le> length (w_lights w)"
  shows "(\<exists>w'. translateBuffer ar lay w data b e = Some (w', data + (e - b) * sizeof_DataType lay))
       \<and> (\<exists>w'. translateUniforms ar lay w data step b e = Some (w', data + (e - b) * step))"
  by (simp add: translateBuffer_run [OF assms] translateUniforms_run [OF assms])

theorem translation_terminates_witness:
  "(0::nat) \<le> 2 \<and> 2 \<le> length (w_lights example_world)
   \<and> (\<exists>w'. translateBuffer exact example_layout example_world 0 0 2
              = Some (w', 0 + (2 - 0) * sizeof_DataType example_layout))
   \<and> (\<exists>w'. translateUniforms exact example_layout example_world 0 160 0 2 = Some (w', 0 + (2 - 0) * 160))"
  using translation_terminates [of 0 2 example_world exact example_layout 0 160]
  by (simp add: example_world_lights)

text \<open>
  Claim C10. On an empty range (\<^verbatim>\<open>begin == end\<close>) both calls return the world as
  it was, so no byte of the destination changes; and on any range, a call that
  returns leaves the light container and the render block as they were.
\<close>

theorem empty_range_writes_nothing:
  "translateBuffer ar lay w data b b = Some (w, data)
   \<and> translateUniforms ar lay w data step b b = Some (w, data)
   \<and> (translateBuffer ar lay w data b e = Some (w', d')
        \<longrightarrow> w_lights w' = w_lights w \<and> w_stats w' = w_stats w)
   \<and> (translateUniforms ar lay w data step b e = Some (w'', d'')
        \<longrightarrow> w_lights w'' = w_lights w \<and> w_stats w'' = w_stats w)"
proof -
  have "translateBuffer ar lay w data b b = Some (w, data)"
    by (subst translateBuffer.simps) simp
  moreover have "translateUniforms ar lay w data step b b = Some (w, data)"
    by (subst translateUniforms.simps) simp
  moreover have "w_lights w' = w_lights w \<and> w_stats w' = w_stats w"
    if "translateBuffer ar lay w data b e = Some (w', d')"
    using buffer_keeps_const [OF that] by simp
  moreover have "w_lights w'' = w_lights w \<and> w_stats w'' = w_stats w"
    if "translateUniforms ar lay w data step b e = Some (w'', d'')"
    using uniforms_keeps_const [OF that] by simp
  ultimately show ?thesis by blast
qed

theorem empty_range_writes_nothing_witness:
  "translateBuffer exact example_layout example_world 0 1 1 = Some (example_world, 0)
   \<and> translateUniforms exact example_layout example_world 0 160 1 1 = Some (example_world, 0)
   \<and> translateBuffer exact example_layout example_world 0 0 2
       = Some (example_world\<lparr>w_mem := store_records exact example_layout (w_stats example_world)
                  (w_mem example_world) 0 144 (w_lights example_world)\<rparr>, 288)
   \<and> w_lights (example_world\<lparr>w_mem := store_records exact example_layout (w_stats example_world)
                  (w_mem example_world) 0 144 (w_lights example_world)\<rparr>) = w_lights example_world
   \<and> w_stats (example_world\<lparr>w_mem := store_records exact example_layout (w_stats example_world)
                  (w_mem example_world) 0 144 (w_lights example_world)\<rparr>) = w_stats example_world"
proof -
  have run: "translateBuffer exact example_layout example_world 0 0 2
       = Some (example_world\<lparr>w_mem := store_records exact example_layout (w_stats example_world)
                  (w_mem example_world) 0 144 (w_lights example_world)\<rparr>, 288)"
    using translateBuffer_run [of 0 2 example_world exact example_layout 0]
    by (simp add: example_world_lights range_lights_def) (simp add: example_layout_def)
  from empty_range_writes_nothing [of exact example_layout example_world 0 1 160]
    empty_range_writes_nothing [of exact example_layout example_world 0 0 160 2, THEN conjunct2,
      THEN conjunct2, THEN conjunct1, rule_format, OF run] run
  show ?thesis by simp
qed

end
